theory Spec2Isabelle
  imports Main "HOL-Library.Sublist"
begin

section \<open>The URL image-captioning route of \<open>app.py\<close>\<close>

text \<open>
  The development embeds the view function \<open>url_caption\<close> (lines 110-176 of \<open>app.py\<close>).
  Python strings are character lists; only code points below 256 are representable, which
  covers every literal the code compares against. A Python value that is either a string
  or \<open>None\<close> is a \<open>string option\<close>. An exception that leaves the view function is the
  \<open>Inl\<close> branch of a sum.
\<close>

subsection \<open>String primitives\<close>

definition startswith :: "string \<Rightarrow> string \<Rightarrow> bool" where
  \<comment> \<open>\<open>s.startswith(p)\<close>\<close>
  "startswith s p = (take (length p) s = p)"

definition endswith :: "string \<Rightarrow> string \<Rightarrow> bool" where
  \<comment> \<open>\<open>s.endswith(p)\<close>\<close>
  "endswith s p = (length p \<le> length s \<and> drop (length s - length p) s = p)"

fun str_in :: "string \<Rightarrow> string \<Rightarrow> bool" where
  \<comment> \<open>\<open>p in s\<close>: \<open>p\<close> occurs in \<open>s\<close> as a contiguous run\<close>
  "str_in p [] = (p = [])"
| "str_in p (c # cs) = (startswith (c # cs) p \<or> str_in p cs)"

definition rstrip :: "string \<Rightarrow> char \<Rightarrow> string" where
  \<comment> \<open>\<open>s.rstrip(c)\<close> for a one-character argument: drop every trailing \<open>c\<close>\<close>
  "rstrip s c = rev (dropWhile (\<lambda>x. x = c) (rev s))"

definition isspace :: "char \<Rightarrow> bool" where
  \<comment> \<open>the code points below 256 that Python's \<open>str.split()\<close> treats as whitespace\<close>
  "isspace c = (c \<in> set [CHR 0x09, CHR 0x0A, CHR 0x0B, CHR 0x0C, CHR 0x0D,
                          CHR 0x1C, CHR 0x1D, CHR 0x1E, CHR 0x1F, CHR 0x20,
                          CHR 0x85, CHR 0xA0])"

fun split_acc :: "string \<Rightarrow> string \<Rightarrow> string list" where
  \<comment> \<open>the first argument is the word being read, reversed\<close>
  "split_acc cur [] = (if cur = [] then [] else [rev cur])"
| "split_acc cur (c # cs) =
     (if isspace c then (if cur = [] then split_acc [] cs else rev cur # split_acc [] cs)
      else split_acc (c # cur) cs)"

definition str_split :: "string \<Rightarrow> string list" where
  \<comment> \<open>\<open>s.split()\<close> without arguments: the maximal runs of non-whitespace, in order\<close>
  "str_split s = split_acc [] s"

definition truthy :: "string option \<Rightarrow> bool" where
  \<comment> \<open>Python truth value: \<open>None\<close> and the empty string are false\<close>
  "truthy v = (case v of None \<Rightarrow> False | Some s \<Rightarrow> s \<noteq> [])"

definition py_or :: "string option \<Rightarrow> string option \<Rightarrow> string option" where
  \<comment> \<open>\<open>a or b\<close>\<close>
  "py_or a b = (if truthy a then a else b)"

subsection \<open>Data\<close>

text \<open>
  An \<open>img\<close> tag as BeautifulSoup hands it over: its attribute dictionary. \<open>e k\<close> is
  \<open>img_element.get(k)\<close>, and \<open>has_attr(k)\<close> holds when \<open>e k\<close> is not \<open>None\<close>.
\<close>

type_synonym element = "string \<rightharpoonup> string"

datatype error = BadRequestKeyError | RequestException | IndexError | UnicodeEncodeError

text \<open>
  The collaborators of the route. The response to an image request may differ from one
  request to the next, so it depends on the position \<open>idx\<close> of the candidate as well as on
  the address. \<open>None\<close> stands for a raised exception. The exception handler of line 173
  prints the exception, whose text may hold characters that the encoding of the standard
  output cannot represent; \<open>print\<close> then raises UnicodeEncodeError, and \<open>print_raises\<close>
  says for which candidate it does. (The \<open>print\<close> of line 120 writes a number between
  ASCII words and is not modelled.)
\<close>

record ('b, 'i) world =
  page_get :: "string \<Rightarrow> string option"
    \<comment> \<open>\<open>requests.get(url, headers=headers).text\<close>\<close>
  find_all_img :: "string \<Rightarrow> element list"
    \<comment> \<open>\<open>BeautifulSoup(text, "html.parser").find_all("img")\<close>\<close>
  image_get :: "nat \<Rightarrow> string \<Rightarrow> 'b option"
    \<comment> \<open>\<open>requests.get(img_url, timeout=10, headers=headers).content\<close>\<close>
  image_open :: "'b \<Rightarrow> 'i option"
    \<comment> \<open>\<open>Image.open(BytesIO(content))\<close>\<close>
  image_size :: "'i \<Rightarrow> nat \<times> nat"
    \<comment> \<open>\<open>raw_image.size\<close>\<close>
  generate_caption :: "'i \<Rightarrow> string option"
    \<comment> \<open>lines 156-164: \<open>convert("RGB")\<close>, \<open>processor\<close>, \<open>model.generate\<close>, \<open>processor.decode\<close>\<close>
  print_raises :: "nat \<Rightarrow> string \<Rightarrow> bool"
    \<comment> \<open>line 173: \<open>print(f"[{idx}] Error: {e}")\<close> raises, for the exception of this candidate\<close>

text \<open>The part of Flask's \<open>request\<close> the route reads: \<open>request.method\<close> and \<open>request.form\<close>.\<close>

record request =
  req_method :: string
  form :: "string \<rightharpoonup> string"

text \<open>
  The loop state: the list \<open>captions\<close> of the code, each dictionary
  \<open>{"url": u, "caption": c}\<close> as the pair \<open>(u, c)\<close>, and the trace of the image
  addresses requested so far.
\<close>

record state =
  captions :: "(string \<times> string) list"
  requested :: "string list"

subsection \<open>The body of the loop\<close>

definition choose_ref :: "element \<Rightarrow> error + string option" where
  \<comment> \<open>lines 124-126; \<open>split()[0]\<close> raises IndexError on an empty list\<close>
  "choose_ref e =
     (let img_url = py_or (e ''src'') (e ''data-src'') in
      if truthy img_url then Inr img_url
      else (case e ''srcset'' of
              None \<Rightarrow> Inr img_url
            | Some v \<Rightarrow> (case str_split v of
                           [] \<Rightarrow> Inl IndexError
                         | t # ts \<Rightarrow> Inr (Some t))))"

definition is_svg :: "string \<Rightarrow> bool" where
  \<comment> \<open>line 134\<close>
  "is_svg img_url = (endswith img_url ''.svg'' \<or> str_in ''.svg'' img_url)"

definition fix_relative :: "string \<Rightarrow> string \<Rightarrow> string option" where
  \<comment> \<open>lines 139-144; \<open>None\<close> is the \<open>continue\<close> of line 144\<close>
  "fix_relative url img_url =
     (if startswith img_url ''//'' then Some (''https:'' @ img_url)
      else if startswith img_url ''/'' then Some (rstrip url CHR ''/'' @ img_url)
      else if startswith img_url ''http'' then Some img_url
      else None)"

definition resolve :: "string \<Rightarrow> string \<Rightarrow> string option" where
  \<comment> \<open>lines 134-144: the vector-format filter, then the resolution rules\<close>
  "resolve url img_url = (if is_svg img_url then None else fix_relative url img_url)"

definition candidate :: "string \<Rightarrow> element \<Rightarrow> error + string option" where
  \<comment> \<open>lines 124-144: the address to request for an element, \<open>None\<close> when the element is skipped\<close>
  "candidate url e =
     (case choose_ref e of
        Inl err \<Rightarrow> Inl err
      | Inr None \<Rightarrow> Inr None
      | Inr (Some []) \<Rightarrow> Inr None
      | Inr (Some (c # cs)) \<Rightarrow> Inr (resolve url (c # cs)))"

datatype attempt = Raised | TooSmall | Captioned string

definition caption_attempt :: "('b, 'i) world \<Rightarrow> nat \<Rightarrow> string \<Rightarrow> attempt" where
  \<comment> \<open>the \<open>try\<close> block, lines 147-164\<close>
  "caption_attempt w idx img_url =
     (case image_get w idx img_url of
        None \<Rightarrow> Raised
      | Some content \<Rightarrow>
          (case image_open w content of
             None \<Rightarrow> Raised
           | Some raw_image \<Rightarrow>
               if fst (image_size w raw_image) * snd (image_size w raw_image) < 200
               then TooSmall
               else (case generate_caption w raw_image of
                       None \<Rightarrow> Raised
                     | Some caption \<Rightarrow> Captioned caption)))"

text \<open>
  The loop returns the state it ends with; when an exception leaves it, the exception
  comes with the state at that moment (the requests made until then have been made).
\<close>

fun url_caption_loop ::
  "('b, 'i) world \<Rightarrow> string \<Rightarrow> element list \<Rightarrow> nat \<Rightarrow> state \<Rightarrow> error \<times> state + state" where
  \<comment> \<open>lines 122-174\<close>
  "url_caption_loop w url [] idx st = Inr st"
| "url_caption_loop w url (e # es) idx st =
     (case candidate url e of
        Inl err \<Rightarrow> Inl (err, st)
      | Inr None \<Rightarrow> url_caption_loop w url es (Suc idx) st
      | Inr (Some img_url) \<Rightarrow>
          (case caption_attempt w idx img_url of
             Captioned caption \<Rightarrow>
               (if 5 \<le> length (captions st @ [(img_url, caption)])
                then Inr (st\<lparr>captions := captions st @ [(img_url, caption)],
                            requested := requested st @ [img_url]\<rparr>)
                else url_caption_loop w url es (Suc idx)
                       (st\<lparr>captions := captions st @ [(img_url, caption)],
                          requested := requested st @ [img_url]\<rparr>))
           | TooSmall \<Rightarrow>
               url_caption_loop w url es (Suc idx)
                 (st\<lparr>requested := requested st @ [img_url]\<rparr>)
           | Raised \<Rightarrow>
               (if print_raises w idx img_url
                then Inl (UnicodeEncodeError, st\<lparr>requested := requested st @ [img_url]\<rparr>)
                else url_caption_loop w url es (Suc idx)
                       (st\<lparr>requested := requested st @ [img_url]\<rparr>))))"

definition exit_state :: "error \<times> state + state \<Rightarrow> state" where
  \<comment> \<open>the state with which the loop is left, by its end, by \<open>break\<close> or by an exception\<close>
  "exit_state r = (case r of Inl (err, st) \<Rightarrow> st | Inr st \<Rightarrow> st)"

definition url_caption :: "('b, 'i) world \<Rightarrow> request \<Rightarrow> error + (string \<times> string) list" where
  \<comment> \<open>lines 111-176; the result is the list handed to the template\<close>
  "url_caption w req =
     (if req_method req = ''POST'' then
        (case form req ''url_addr'' of
           None \<Rightarrow> Inl BadRequestKeyError
         | Some url \<Rightarrow>
             (case page_get w url of
                None \<Rightarrow> Inl RequestException
              | Some text \<Rightarrow>
                  (case url_caption_loop w url (find_all_img w text) 1
                          \<lparr>captions = [], requested = []\<rparr> of
                     Inl (err, st) \<Rightarrow> Inl err
                   | Inr st \<Rightarrow> Inr (captions st))))
      else Inr [])"

definition resolved_refs :: "string \<Rightarrow> element list \<Rightarrow> string list" where
  \<comment> \<open>the addresses the resolution stage produces for a list of elements, in order\<close>
  "resolved_refs url es =
     concat (map (\<lambda>e. case candidate url e of Inr (Some u) \<Rightarrow> [u] | _ \<Rightarrow> []) es)"

fun successes ::
  "('b, 'i) world \<Rightarrow> string \<Rightarrow> element list \<Rightarrow> nat \<Rightarrow> (string \<times> string) list" where
  \<comment> \<open>the elements whose \<open>try\<close> block reaches line 167, in document order, each with the
      entry it appends; \<open>idx\<close> is the position of the first element\<close>
  "successes w url [] idx = []"
| "successes w url (e # es) idx =
     (case candidate url e of
        Inr (Some img_url) \<Rightarrow>
          (case caption_attempt w idx img_url of
             Captioned caption \<Rightarrow> [(img_url, caption)]
           | _ \<Rightarrow> [])
      | _ \<Rightarrow> []) @ successes w url es (Suc idx)"

subsection \<open>A sample environment\<close>

text \<open>
  A concrete environment on which the theorems below are instantiated: the page at
  \<open>https://site.com\<close> holds one \<open>img\<close> tag with an empty \<open>srcset\<close>, the image
  \<open>gone.jpg\<close> cannot be fetched, \<open>dot.gif\<close> is a single pixel, and every other
  image is 640 by 480 and gets the caption \<open>a photo\<close>. The address \<open>http\<close> followed by
  the letter e with an acute accent (code point 233) is rejected by \<open>requests\<close> with an
  exception that names it, and the standard output cannot encode that letter.
\<close>

definition sample_world :: "(string, nat \<times> nat) world" where
  "sample_world =
     \<lparr>page_get = (\<lambda>u. if u = ''https://site.com'' then Some ''<img srcset>'' else None),
      find_all_img = (\<lambda>t. [[''srcset'' \<mapsto> '''']]),
      image_get = (\<lambda>idx u. if u = ''https://site.com/gone.jpg'' then None
                           else if u = ''http'' @ [CHR 0xE9] then None
                           else Some u),
      image_open = (\<lambda>b. if b = ''https://site.com/dot.gif'' then Some (1, 1) else Some (640, 480)),
      image_size = (\<lambda>i. i),
      generate_caption = (\<lambda>i. Some ''a photo''),
      print_raises = (\<lambda>idx u. u = ''http'' @ [CHR 0xE9])\<rparr>"

section \<open>String facts\<close>

lemma startswith_prefix: "startswith s p = prefix p s"
  by (auto simp: startswith_def prefix_def) (metis append_take_drop_id)

lemma str_in_iff: "str_in p s \<longleftrightarrow> (\<exists>a b. s = a @ p @ b)"
proof (induction s)
  case Nil
  then show ?case by auto
next
  case (Cons c cs)
  show ?case
  proof
    assume "str_in p (c # cs)"
    then consider "prefix p (c # cs)" | "str_in p cs" by (auto simp: startswith_prefix)
    then show "\<exists>a b. c # cs = a @ p @ b"
    proof cases
      case 1
      then obtain b where "c # cs = p @ b" by (auto simp: prefix_def)
      then have "c # cs = [] @ p @ b" by simp
      then show ?thesis by blast
    next
      case 2
      with Cons.IH obtain a b where "cs = a @ p @ b" by blast
      then have "c # cs = (c # a) @ p @ b" by simp
      then show ?thesis by blast
    qed
  next
    assume "\<exists>a b. c # cs = a @ p @ b"
    then obtain a b where ab: "c # cs = a @ p @ b" by blast
    show "str_in p (c # cs)"
    proof (cases a)
      case Nil
      with ab have "prefix p (c # cs)" by (simp add: prefix_def)
      then show ?thesis by (simp add: startswith_prefix)
    next
      case (Cons x a')
      with ab have "cs = a' @ p @ b" by simp
      with Cons.IH have "str_in p cs" by blast
      then show ?thesis by simp
    qed
  qed
qed

lemma endswith_str_in: "endswith s p \<Longrightarrow> str_in p s"
proof -
  assume "endswith s p"
  then have "s = take (length s - length p) s @ p @ []"
    by (simp add: endswith_def) (metis append_take_drop_id)
  then show ?thesis unfolding str_in_iff by blast
qed

lemma is_svg_iff: "is_svg s \<longleftrightarrow> (\<exists>a b. s = a @ ''.svg'' @ b)"
  using endswith_str_in [of s "''.svg''"] by (auto simp: is_svg_def str_in_iff)

lemma split_acc_empty: "split_acc cur v = [] \<longleftrightarrow> cur = [] \<and> list_all isspace v"
  by (induction v arbitrary: cur) auto

lemma str_split_empty: "str_split v = [] \<longleftrightarrow> list_all isspace v"
  by (simp add: str_split_def split_acc_empty)

lemma http_not_slash: "startswith s ''http'' \<Longrightarrow> \<not> startswith s ''/'' \<and> \<not> startswith s ''//''"
  by (cases s) (auto simp: startswith_def)

section \<open>Steps of the loop\<close>

lemmas eval_defs =
  candidate_def choose_ref_def py_or_def truthy_def resolve_def is_svg_def endswith_def
  startswith_def fix_relative_def rstrip_def str_split_def isspace_def

lemma fix_relative_nonempty: "fix_relative url [] = None"
  by (simp add: fix_relative_def startswith_def)

lemma candidate_resolve:
  "choose_ref e = Inr (Some r) \<Longrightarrow> candidate url e = Inr (resolve url r)"
  by (cases r) (simp_all add: candidate_def resolve_def fix_relative_nonempty)

lemma loop_skip:
  "candidate url e = Inr None \<Longrightarrow>
     url_caption_loop w url (e # es) idx st = url_caption_loop w url es (Suc idx) st"
  by simp

lemma choose_ref_src: "truthy (e ''src'') \<Longrightarrow> choose_ref e = Inr (e ''src'')"
  by (simp add: choose_ref_def py_or_def)

lemma choose_ref_data_src:
  "\<not> truthy (e ''src'') \<Longrightarrow> truthy (e ''data-src'') \<Longrightarrow> choose_ref e = Inr (e ''data-src'')"
  by (simp add: choose_ref_def py_or_def)

lemma choose_ref_srcset:
  "\<not> truthy (e ''src'') \<Longrightarrow> \<not> truthy (e ''data-src'') \<Longrightarrow> e ''srcset'' = Some v \<Longrightarrow>
   str_split v = t # ts \<Longrightarrow> choose_ref e = Inr (Some t)"
  by (simp add: choose_ref_def py_or_def)

lemma choose_ref_srcset_blank:
  "\<not> truthy (e ''src'') \<Longrightarrow> \<not> truthy (e ''data-src'') \<Longrightarrow> e ''srcset'' = Some v \<Longrightarrow>
   list_all isspace v \<Longrightarrow> choose_ref e = Inl IndexError"
  using str_split_empty [of v] by (simp add: choose_ref_def py_or_def)

lemma candidate_no_ref:
  "\<not> truthy (e ''src'') \<Longrightarrow> \<not> truthy (e ''data-src'') \<Longrightarrow> e ''srcset'' = None \<Longrightarrow>
   candidate url e = Inr None"
  by (auto simp: candidate_def choose_ref_def py_or_def truthy_def split: option.splits list.splits)

lemma root_relative:
  "startswith r ''/'' \<Longrightarrow> \<not> startswith r ''//'' \<Longrightarrow> \<not> is_svg r \<Longrightarrow>
   resolve url r = Some (rstrip url CHR ''/'' @ r)"
  by (simp add: resolve_def fix_relative_def)

lemma loop_quota:
  "length (captions st) < 5 \<Longrightarrow> url_caption_loop w url es idx st = Inr st' \<Longrightarrow>
     length (captions st') \<le> 5"
proof (induction es arbitrary: idx st)
  case Nil
  then show ?case by simp
next
  case (Cons e es)
  show ?case
  proof (cases "candidate url e")
    case (Inl err)
    with Cons.prems show ?thesis by simp
  next
    case (Inr r)
    show ?thesis
    proof (cases r)
      case None
      with Inr Cons.prems Cons.IH [of st "Suc idx"] show ?thesis by simp
    next
      case (Some u)
      let ?st1 = "st\<lparr>requested := requested st @ [u]\<rparr>"
      show ?thesis
      proof (cases "caption_attempt w idx u")
        case Raised
        with Inr Some Cons.prems Cons.IH [of ?st1 "Suc idx"] show ?thesis
          by (simp split: if_splits)
      next
        case TooSmall
        with Inr Some Cons.prems Cons.IH [of ?st1 "Suc idx"] show ?thesis by simp
      next
        case (Captioned c)
        let ?st2 = "st\<lparr>captions := captions st @ [(u, c)], requested := requested st @ [u]\<rparr>"
        show ?thesis
        proof (cases "5 \<le> length (captions st @ [(u, c)])")
          case True
          with Inr Some Captioned Cons.prems have "st' = ?st2" by simp
          with Cons.prems(1) show ?thesis by simp
        next
          case False
          with Inr Some Captioned Cons.prems
          have "url_caption_loop w url es (Suc idx) ?st2 = Inr st'" by simp
          moreover from False have "length (captions ?st2) < 5" by simp
          ultimately show ?thesis using Cons.IH [of ?st2 "Suc idx"] by blast
        qed
      qed
    qed
  qed
qed

lemma loop_early_exit:
  "length (captions st) < 5 \<Longrightarrow> url_caption_loop w url es idx st = Inr st' \<Longrightarrow>
   length (captions st') = 5 \<Longrightarrow> url_caption_loop w url (es @ es') idx st = Inr st'"
proof (induction es arbitrary: idx st)
  case Nil
  then show ?case by simp
next
  case (Cons e es)
  show ?case
  proof (cases "candidate url e")
    case (Inl err)
    with Cons.prems show ?thesis by simp
  next
    case (Inr r)
    show ?thesis
    proof (cases r)
      case None
      with Inr Cons.prems Cons.IH [of st "Suc idx"] show ?thesis by simp
    next
      case (Some u)
      let ?st1 = "st\<lparr>requested := requested st @ [u]\<rparr>"
      show ?thesis
      proof (cases "caption_attempt w idx u")
        case Raised
        with Inr Some Cons.prems Cons.IH [of ?st1 "Suc idx"] show ?thesis
          by (simp split: if_splits)
      next
        case TooSmall
        with Inr Some Cons.prems Cons.IH [of ?st1 "Suc idx"] show ?thesis by simp
      next
        case (Captioned c)
        let ?st2 = "st\<lparr>captions := captions st @ [(u, c)], requested := requested st @ [u]\<rparr>"
        show ?thesis
        proof (cases "5 \<le> length (captions st @ [(u, c)])")
          case True
          with Inr Some Captioned Cons.prems show ?thesis by simp
        next
          case False
          with Inr Some Captioned Cons.prems
          have "url_caption_loop w url es (Suc idx) ?st2 = Inr st'" by simp
          moreover from False have "length (captions ?st2) < 5" by simp
          ultimately have "url_caption_loop w url (es @ es') (Suc idx) ?st2 = Inr st'"
            using Cons.IH [of ?st2 "Suc idx"] Cons.prems(3) by blast
          with Inr Some Captioned False show ?thesis by simp
        qed
      qed
    qed
  qed
qed

lemma url_caption_at_most_five: "url_caption w req = Inr cs \<Longrightarrow> length cs \<le> 5"
  by (auto simp: url_caption_def split: if_splits option.splits sum.splits prod.splits
           dest!: loop_quota [rotated])

lemma page_fetch_failure_raises:
  "req_method req = ''POST'' \<Longrightarrow> form req ''url_addr'' = Some url \<Longrightarrow> page_get w url = None \<Longrightarrow>
   url_caption w req = Inl RequestException"
  by (simp add: url_caption_def)

lemma logged_failure_skips_candidate:
  assumes "candidate url e = Inr (Some u)"
    and "image_get w idx u = None \<or>
         (\<exists>b. image_get w idx u = Some b \<and> image_open w b = None) \<or>
         (\<exists>b i. image_get w idx u = Some b \<and> image_open w b = Some i \<and>
                generate_caption w i = None)"
    and "\<not> print_raises w idx u"
  shows "url_caption_loop w url (e # es) idx st =
         url_caption_loop w url es (Suc idx) (st\<lparr>requested := requested st @ [u]\<rparr>)"
proof -
  from assms(2) have "caption_attempt w idx u = Raised \<or> caption_attempt w idx u = TooSmall"
    by (auto simp: caption_attempt_def)
  with assms(1,3) show ?thesis by auto
qed

section \<open>The claims\<close>

text \<open>
  C1. The claim: a root-relative reference resolved against the page
  \<open>https://example.com/blog\<close> is \<open>https://example.com\<close> followed by the path. Line 142
  appends the path to the whole page address, stripped of trailing slashes only (lemma
  \<open>root_relative\<close>), so the page's own path \<open>/blog\<close> stays in the result:
  \<open>/a.jpg\<close> becomes \<open>https://example.com/blog/a.jpg\<close>, not \<open>https://example.com/a.jpg\<close>.
\<close>

theorem root_relative_keeps_page_path:
  "resolve ''https://example.com/blog'' ''/a.jpg'' = Some ''https://example.com/blog/a.jpg'' \<and>
   resolve ''https://example.com/blog'' ''/a.jpg'' \<noteq> Some ''https://example.com/a.jpg''"
  by (simp add: eval_defs)

text \<open>
  C2. For the three elements \<open><img src="/a.jpg">\<close>, \<open><img src="http://x/b.svg">\<close>,
  \<open><img data-src="//cdn/c.jpg">\<close> and the page \<open>https://site.com\<close>, the resolution stage
  yields exactly \<open>https://site.com/a.jpg\<close> and \<open>https://cdn/c.jpg\<close>. In every
  environment the requests made, however the loop is left, are those two in that order (the
  first alone when the loop is left from the handler of the first): the \<open>.svg\<close> address
  is never requested.
\<close>

theorem three_elements_two_refs:
  "resolved_refs ''https://site.com''
     [[''src'' \<mapsto> ''/a.jpg''], [''src'' \<mapsto> ''http://x/b.svg''], [''data-src'' \<mapsto> ''//cdn/c.jpg'']] =
     [''https://site.com/a.jpg'', ''https://cdn/c.jpg''] \<and>
   requested (exit_state (url_caption_loop w ''https://site.com''
           [[''src'' \<mapsto> ''/a.jpg''], [''src'' \<mapsto> ''http://x/b.svg''], [''data-src'' \<mapsto> ''//cdn/c.jpg'']]
           1 \<lparr>captions = [], requested = []\<rparr>)) =
     (if caption_attempt w 1 ''https://site.com/a.jpg'' = Raised \<and>
         print_raises w 1 ''https://site.com/a.jpg''
      then [''https://site.com/a.jpg'']
      else [''https://site.com/a.jpg'', ''https://cdn/c.jpg''])"
proof -
  have c1: "candidate ''https://site.com'' [''src'' \<mapsto> ''/a.jpg''] = Inr (Some ''https://site.com/a.jpg'')"
    by (simp add: eval_defs)
  have c2: "candidate ''https://site.com'' [''src'' \<mapsto> ''http://x/b.svg''] = Inr None"
    by (simp add: eval_defs)
  have c3: "candidate ''https://site.com'' [''data-src'' \<mapsto> ''//cdn/c.jpg''] = Inr (Some ''https://cdn/c.jpg'')"
    by (simp add: eval_defs)
  have refs: "resolved_refs ''https://site.com''
     [[''src'' \<mapsto> ''/a.jpg''], [''src'' \<mapsto> ''http://x/b.svg''], [''data-src'' \<mapsto> ''//cdn/c.jpg'']] =
     [''https://site.com/a.jpg'', ''https://cdn/c.jpg'']"
    by (simp add: resolved_refs_def c1 c2 c3)
  have run: "requested (exit_state (url_caption_loop w ''https://site.com''
           [[''src'' \<mapsto> ''/a.jpg''], [''src'' \<mapsto> ''http://x/b.svg''], [''data-src'' \<mapsto> ''//cdn/c.jpg'']]
           1 \<lparr>captions = [], requested = []\<rparr>)) =
     (if caption_attempt w 1 ''https://site.com/a.jpg'' = Raised \<and>
         print_raises w 1 ''https://site.com/a.jpg''
      then [''https://site.com/a.jpg'']
      else [''https://site.com/a.jpg'', ''https://cdn/c.jpg''])"
    by (cases "caption_attempt w 1 ''https://site.com/a.jpg''";
        cases "caption_attempt w (Suc (Suc 1)) ''https://cdn/c.jpg''")
       (simp_all add: c1 c2 c3 exit_state_def)
  from refs run show ?thesis by blast
qed

text \<open>
  C3. A reference that contains \<open>.svg\<close> anywhere is never resolved, and the loop passes
  over its element without a request and without a result.
\<close>

theorem svg_never_resolved:
  assumes "img_url = a @ ''.svg'' @ b" and "choose_ref e = Inr (Some img_url)"
  shows "resolve url img_url = None \<and>
         url_caption_loop w url (e # es) idx st = url_caption_loop w url es (Suc idx) st"
proof -
  from assms(1) have "is_svg img_url" unfolding is_svg_iff by blast
  then have r: "resolve url img_url = None" by (simp add: resolve_def)
  with assms(2) have "candidate url e = Inr None" by (simp add: candidate_resolve)
  then show ?thesis using r by simp
qed

theorem svg_never_resolved_witness:
  "resolve ''https://site.com'' ''http://x/b.svg'' = None \<and>
   url_caption_loop sample_world ''https://site.com'' [[''src'' \<mapsto> ''http://x/b.svg'']] 1 \<lparr>captions = [], requested = []\<rparr> = Inr \<lparr>captions = [], requested = []\<rparr>"
proof -
  have a: "''http://x/b.svg'' = ''http://x/b'' @ ''.svg'' @ []"
    by simp
  have b: "choose_ref [''src'' \<mapsto> ''http://x/b.svg''] = Inr (Some ''http://x/b.svg'')"
    by (simp add: choose_ref_def py_or_def truthy_def)
  from svg_never_resolved [where url = "''https://site.com''" and w = sample_world
      and es = "[]" and idx = 1 and st = "\<lparr>captions = [], requested = []\<rparr>", OF a b]
  show ?thesis by simp
qed

text \<open>
  C4. Started with fewer than five entries (the code starts with none), the loop never
  returns more than five; and once a run has reached five, elements that follow the ones
  it has seen change nothing: they are not processed.
\<close>

theorem quota:
  assumes "length (captions st) < 5" and "url_caption_loop w url es idx st = Inr st'"
  shows "length (captions st') \<le> 5 \<and>
         (length (captions st') = 5 \<longrightarrow> url_caption_loop w url (es @ es') idx st = Inr st')"
  using assms loop_quota [of st w url es idx st'] loop_early_exit [of st w url es idx st' es']
  by blast

theorem quota_witness:
  "length (captions \<lparr>captions = replicate 5 (''https://site.com/a.jpg'', ''a photo''),
                     requested = replicate 5 ''https://site.com/a.jpg''\<rparr>) \<le> 5 \<and>
   url_caption_loop sample_world ''https://site.com''
     ([[''src'' \<mapsto> ''/a.jpg''], [''src'' \<mapsto> ''/a.jpg''], [''src'' \<mapsto> ''/a.jpg''], [''src'' \<mapsto> ''/a.jpg''], [''src'' \<mapsto> ''/a.jpg'']] @ [[''srcset'' \<mapsto> '''']]) 1 \<lparr>captions = [], requested = []\<rparr> =
   Inr \<lparr>captions = replicate 5 (''https://site.com/a.jpg'', ''a photo''),
        requested = replicate 5 ''https://site.com/a.jpg''\<rparr>"
proof -
  have c: "candidate ''https://site.com'' [''src'' \<mapsto> ''/a.jpg''] = Inr (Some ''https://site.com/a.jpg'')"
    by (simp add: eval_defs)
  have t: "caption_attempt sample_world idx ''https://site.com/a.jpg'' = Captioned ''a photo''"
    for idx
    by (simp add: caption_attempt_def sample_world_def)
  have run: "url_caption_loop sample_world ''https://site.com''
      [[''src'' \<mapsto> ''/a.jpg''], [''src'' \<mapsto> ''/a.jpg''], [''src'' \<mapsto> ''/a.jpg''], [''src'' \<mapsto> ''/a.jpg''], [''src'' \<mapsto> ''/a.jpg'']] 1 \<lparr>captions = [], requested = []\<rparr> =
    Inr \<lparr>captions = replicate 5 (''https://site.com/a.jpg'', ''a photo''),
         requested = replicate 5 ''https://site.com/a.jpg''\<rparr>"
    by (simp add: c t numeral_eq_Suc)
  have start: "length (captions \<lparr>captions = [], requested = []\<rparr>) < 5"
    by simp
  from quota [OF start run, of "[[''srcset'' \<mapsto> '''']]"] show ?thesis
    by simp
qed

text \<open>
  C5. The claim: a failure of the image request, of the decoding or of the caption call
  only skips its candidate, and no exception of these stages reaches the caller. The
  handler of lines 172-174 does go on with the next element when its \<open>print\<close> returns
  (lemma \<open>logged_failure_skips_candidate\<close>). But the handler prints the exception before
  it continues, and when that \<open>print\<close> raises, the loop is left with UnicodeEncodeError:
  the elements that follow are not processed and the results are lost.
\<close>

theorem handler_print_raises:
  assumes "candidate url e = Inr (Some u)"
    and "caption_attempt w idx u = Raised"
    and "print_raises w idx u"
  shows "url_caption_loop w url (e # es) idx st =
         Inl (UnicodeEncodeError, st\<lparr>requested := requested st @ [u]\<rparr>)"
  using assms by simp

theorem handler_print_raises_witness:
  "url_caption_loop sample_world ''https://site.com''
     [[''src'' \<mapsto> ''http'' @ [CHR 0xE9]], [''src'' \<mapsto> ''/a.jpg'']] 1
     \<lparr>captions = [], requested = []\<rparr> =
   Inl (UnicodeEncodeError, \<lparr>captions = [], requested = [''http'' @ [CHR 0xE9]]\<rparr>)"
proof -
  have c: "candidate ''https://site.com'' [''src'' \<mapsto> ''http'' @ [CHR 0xE9]] =
      Inr (Some (''http'' @ [CHR 0xE9]))"
    by (simp add: eval_defs)
  have f: "caption_attempt sample_world 1 (''http'' @ [CHR 0xE9]) = Raised"
    by (simp add: caption_attempt_def sample_world_def)
  have p: "print_raises sample_world 1 (''http'' @ [CHR 0xE9])"
    by (simp add: sample_world_def)
  from handler_print_raises [OF c f p, of "[[''src'' \<mapsto> ''/a.jpg'']]"
      "\<lparr>captions = [], requested = []\<rparr>"]
  show ?thesis by simp
qed

text \<open>
  C6. A candidate whose decoded image has a width times height below 200 (a 1 by 1 image,
  say) adds nothing to the results; the loop goes on with the next element.
\<close>

theorem small_image_discarded:
  assumes "candidate url e = Inr (Some u)"
    and "image_get w idx u = Some b" and "image_open w b = Some i"
    and "image_size w i = (width, height)" and "width * height < 200"
  shows "caption_attempt w idx u = TooSmall \<and>
         url_caption_loop w url (e # es) idx st =
         url_caption_loop w url es (Suc idx) (st\<lparr>requested := requested st @ [u]\<rparr>)"
proof -
  from assms(2-5) have "caption_attempt w idx u = TooSmall"
    by (simp add: caption_attempt_def)
  with assms(1) show ?thesis by simp
qed

theorem small_image_discarded_witness:
  "caption_attempt sample_world 1 ''https://site.com/dot.gif'' = TooSmall \<and>
   url_caption_loop sample_world ''https://site.com'' [[''src'' \<mapsto> ''/dot.gif''], [''src'' \<mapsto> ''/a.jpg'']] 1 \<lparr>captions = [], requested = []\<rparr> =
   Inr \<lparr>captions = [(''https://site.com/a.jpg'', ''a photo'')],
        requested = [''https://site.com/dot.gif'', ''https://site.com/a.jpg'']\<rparr>"
proof -
  have c: "candidate ''https://site.com'' [''src'' \<mapsto> ''/dot.gif''] = Inr (Some ''https://site.com/dot.gif'')"
    by (simp add: eval_defs)
  have g: "image_get sample_world 1 ''https://site.com/dot.gif'' = Some ''https://site.com/dot.gif''"
    by (simp add: sample_world_def)
  have d: "image_open sample_world ''https://site.com/dot.gif'' = Some (1, 1)"
    by (simp add: sample_world_def)
  have s: "image_size sample_world (1, 1) = (1, 1)"
    by (simp add: sample_world_def)
  have a: "(1::nat) * 1 < 200"
    by simp
  have rest: "url_caption_loop sample_world ''https://site.com'' [[''src'' \<mapsto> ''/a.jpg'']] (Suc 1)
        (\<lparr>captions = [], requested = []\<rparr>\<lparr>requested := requested \<lparr>captions = [], requested = []\<rparr> @ [''https://site.com/dot.gif'']\<rparr>) =
      Inr \<lparr>captions = [(''https://site.com/a.jpg'', ''a photo'')],
           requested = [''https://site.com/dot.gif'', ''https://site.com/a.jpg'']\<rparr>"
    by (simp add: eval_defs caption_attempt_def sample_world_def)
  from small_image_discarded [OF c g d s a, of "[[''src'' \<mapsto> ''/a.jpg'']]" "\<lparr>captions = [], requested = []\<rparr>"] rest
  show ?thesis by simp
qed

text \<open>
  C7. The results a run appends are the elements that end in a caption, in the order in
  which the elements stand in the document, cut at the quota: the list of results is the
  list at the start followed by the first entries of \<open>successes\<close>, as many as are still
  missing to five.
\<close>

theorem results_in_discovery_order:
  assumes "length (captions st) < 5" and "url_caption_loop w url es idx st = Inr st'"
  shows "captions st' =
         captions st @ take (5 - length (captions st)) (successes w url es idx)"
  using assms
proof (induction es arbitrary: idx st)
  case Nil
  then show ?case by simp
next
  case (Cons e es)
  show ?case
  proof (cases "candidate url e")
    case (Inl err)
    with Cons.prems show ?thesis by simp
  next
    case (Inr r)
    show ?thesis
    proof (cases r)
      case None
      with Inr Cons.prems Cons.IH [of st "Suc idx"] show ?thesis by simp
    next
      case (Some u)
      let ?st1 = "st\<lparr>requested := requested st @ [u]\<rparr>"
      show ?thesis
      proof (cases "caption_attempt w idx u")
        case Raised
        with Inr Some Cons.prems Cons.IH [of ?st1 "Suc idx"] show ?thesis
          by (simp split: if_splits)
      next
        case TooSmall
        with Inr Some Cons.prems Cons.IH [of ?st1 "Suc idx"] show ?thesis by simp
      next
        case (Captioned c)
        let ?st2 = "st\<lparr>captions := captions st @ [(u, c)], requested := requested st @ [u]\<rparr>"
        show ?thesis
        proof (cases "5 \<le> length (captions st @ [(u, c)])")
          case True
          with Inr Some Captioned Cons.prems have "st' = ?st2" by simp
          moreover from True Cons.prems(1) have "5 - length (captions st) = Suc 0" by simp
          ultimately show ?thesis using Inr Some Captioned by simp
        next
          case False
          with Inr Some Captioned Cons.prems
          have run: "url_caption_loop w url es (Suc idx) ?st2 = Inr st'" by simp
          from False have less: "length (captions ?st2) < 5" by simp
          from False have "5 - length (captions st) = Suc (5 - length (captions ?st2))"
            by simp
          with Cons.IH [OF less run] Inr Some Captioned show ?thesis by simp
        qed
      qed
    qed
  qed
qed

theorem results_in_discovery_order_witness:
  "url_caption_loop (sample_world\<lparr>image_get := (\<lambda>idx u. if idx = 3 then None else Some u)\<rparr>)
     ''https://site.com''
     [[''src'' \<mapsto> ''/a.jpg''], [''src'' \<mapsto> ''/b.jpg''], [''src'' \<mapsto> ''/a.jpg'']] 1
     \<lparr>captions = [], requested = []\<rparr> =
   Inr \<lparr>captions = [(''https://site.com/a.jpg'', ''a photo''),
                    (''https://site.com/b.jpg'', ''a photo'')],
        requested = [''https://site.com/a.jpg'', ''https://site.com/b.jpg'',
                     ''https://site.com/a.jpg'']\<rparr> \<and>
   [(''https://site.com/a.jpg'', ''a photo''), (''https://site.com/b.jpg'', ''a photo'')] =
   take 5 (successes (sample_world\<lparr>image_get := (\<lambda>idx u. if idx = 3 then None else Some u)\<rparr>)
     ''https://site.com''
     [[''src'' \<mapsto> ''/a.jpg''], [''src'' \<mapsto> ''/b.jpg''], [''src'' \<mapsto> ''/a.jpg'']] 1)"
proof -
  have run: "url_caption_loop
      (sample_world\<lparr>image_get := (\<lambda>idx u. if idx = 3 then None else Some u)\<rparr>)
      ''https://site.com''
      [[''src'' \<mapsto> ''/a.jpg''], [''src'' \<mapsto> ''/b.jpg''], [''src'' \<mapsto> ''/a.jpg'']] 1
      \<lparr>captions = [], requested = []\<rparr> =
    Inr \<lparr>captions = [(''https://site.com/a.jpg'', ''a photo''),
                     (''https://site.com/b.jpg'', ''a photo'')],
         requested = [''https://site.com/a.jpg'', ''https://site.com/b.jpg'',
                      ''https://site.com/a.jpg'']\<rparr>"
    by (simp add: eval_defs caption_attempt_def sample_world_def)
  have start: "length (captions \<lparr>captions = [], requested = []\<rparr>) < 5"
    by simp
  from results_in_discovery_order [OF start run] run show ?thesis
    by simp
qed

text \<open>
  C8. The claim: the reference is \<open>src\<close>, else \<open>data-src\<close>, else the first entry of
  \<open>srcset\<close>, and an element with no reference is skipped without an error. The order is
  the code's (lemmas \<open>choose_ref_src\<close>, \<open>choose_ref_data_src\<close>, \<open>choose_ref_srcset\<close>,
  \<open>candidate_no_ref\<close>), but an element whose only attribute is an empty \<open>srcset\<close> is
  not skipped: \<open>split()[0]\<close> raises IndexError there, outside the \<open>try\<close> block, and
  the loop ends with that exception.
\<close>

theorem empty_srcset_raises:
  "url_caption_loop w url ([''srcset'' \<mapsto> ''''] # es) idx st = Inl (IndexError, st)"
  by (simp add: eval_defs)

text \<open>
  C9. The claim: the page request is the only place from which a failure reaches the
  caller. A page that is fetched and whose first \<open>img\<close> tag has nothing but an empty
  \<open>srcset\<close> ends the route with an IndexError all the same (a failed page request does
  raise: lemma \<open>page_fetch_failure_raises\<close>).
\<close>

theorem index_error_reaches_caller:
  assumes "req_method req = ''POST''" and "form req ''url_addr'' = Some url"
    and "page_get w url = Some text" and "find_all_img w text = [''srcset'' \<mapsto> ''''] # es"
  shows "url_caption w req = Inl IndexError"
  using assms by (simp add: url_caption_def eval_defs)

theorem index_error_reaches_caller_witness:
  "url_caption sample_world \<lparr>req_method = ''POST'', form = [''url_addr'' \<mapsto> ''https://site.com'']\<rparr> =
   Inl IndexError"
proof -
  have p: "req_method \<lparr>req_method = ''POST'', form = [''url_addr'' \<mapsto> ''https://site.com'']\<rparr> = ''POST''"
    by simp
  have u: "form \<lparr>req_method = ''POST'', form = [''url_addr'' \<mapsto> ''https://site.com'']\<rparr>
      ''url_addr'' = Some ''https://site.com''"
    by simp
  have g: "page_get sample_world ''https://site.com'' = Some ''<img srcset>''"
    by (simp add: sample_world_def)
  have f: "find_all_img sample_world ''<img srcset>'' = [''srcset'' \<mapsto> ''''] # []"
    by (simp add: sample_world_def)
  show ?thesis
    by (rule index_error_reaches_caller [OF p u g f])
qed

text \<open>
  C10. Rule 3 only looks at the first four characters: a reference that starts with
  \<open>http\<close> and does not contain \<open>.svg\<close> is accepted as it is, whether or not it is an
  http or https address; \<open>httpfoo\<close> is accepted.
\<close>

theorem http_prefix_accepted:
  assumes "startswith img_url ''http''" and "\<not> str_in ''.svg'' img_url"
  shows "resolve url img_url = Some img_url"
proof -
  from assms(2) have "\<not> is_svg img_url"
    using endswith_str_in [of img_url "''.svg''"] by (auto simp: is_svg_def)
  with assms(1) http_not_slash [of img_url] show ?thesis
    by (simp add: resolve_def fix_relative_def)
qed

theorem http_prefix_accepted_witness:
  "resolve ''https://site.com'' ''httpfoo'' = Some ''httpfoo''"
proof -
  have a: "startswith ''httpfoo'' ''http''"
    by (simp add: startswith_def)
  have b: "\<not> str_in ''.svg'' ''httpfoo''"
    by (simp add: startswith_def)
  show ?thesis
    by (rule http_prefix_accepted [OF a b])
qed

end
